theory Spec2Isabelle
  imports Complex_Main "HOL-Library.Word"
begin

section \<open>JavaScript values used by the playlist parser and the downloader\<close>

text \<open>
  Strings are lists of code units. Isabelle's \<open>char\<close> has 256 values, so the model covers
  the texts all of whose code units are below 256; the tags, digits and separators the
  code looks for are all ASCII.

  A JavaScript number is a double. Its special values are constructors of \<open>jsnum\<close>; a finite
  double is kept as the rational it denotes. The rounding of an exact result to the nearest
  double is not available in the library, so every function that produces a number takes
  that rounding as its first parameter \<open>fl\<close> (a result of magnitude \<open>2 ^ 1024\<close> or more
  after rounding is an infinity, as in IEEE 754). Negative zero is not distinguished from
  zero.
\<close>

datatype jsnum = NaN | Finite rat | PosInfinity | NegInfinity

record js_error =
  name :: string
  message :: string

type_synonym byte = "8 word"

definition LF :: char where
  "LF = CHR 0x0A"

definition double_overflow :: rat where
  "double_overflow = rat_of_int (2 ^ 1024)"

definition js_number :: "(rat \<Rightarrow> rat) \<Rightarrow> rat \<Rightarrow> jsnum" where
  \<comment> \<open>The number that an exact result becomes.\<close>
  "js_number fl r =
     (let x = fl r
      in if double_overflow \<le> x then PosInfinity
         else if x \<le> - double_overflow then NegInfinity
         else Finite x)"

fun jsadd :: "(rat \<Rightarrow> rat) \<Rightarrow> jsnum \<Rightarrow> jsnum \<Rightarrow> jsnum" where
  "jsadd fl NaN y = NaN"
| "jsadd fl x NaN = NaN"
| "jsadd fl (Finite a) (Finite b) = js_number fl (a + b)"
| "jsadd fl (Finite a) y = y"
| "jsadd fl x (Finite b) = x"
| "jsadd fl PosInfinity NegInfinity = NaN"
| "jsadd fl NegInfinity PosInfinity = NaN"
| "jsadd fl PosInfinity PosInfinity = PosInfinity"
| "jsadd fl NegInfinity NegInfinity = NegInfinity"

definition Math_round :: "rat \<Rightarrow> int" where
  \<comment> \<open>\<open>Math.round\<close> on a finite number: the nearest integer, a tie going up.\<close>
  "Math_round x = \<lfloor>x + 1 / 2\<rfloor>"

definition is_js_whitespace :: "char \<Rightarrow> bool" where
  \<comment> \<open>WhiteSpace and LineTerminator code units below 256: TAB, LF, VT, FF, CR, SP, NBSP.\<close>
  "is_js_whitespace c \<longleftrightarrow> (of_char c :: nat) \<in> {9, 10, 11, 12, 13, 32, 160}"

definition trim :: "string \<Rightarrow> string" where
  "trim s = rev (dropWhile is_js_whitespace (rev (dropWhile is_js_whitespace s)))"

definition trimStart :: "string \<Rightarrow> string" where
  "trimStart s = dropWhile is_js_whitespace s"

definition startsWith :: "string \<Rightarrow> string \<Rightarrow> bool" where
  \<comment> \<open>\<open>s.startsWith(p)\<close>\<close>
  "startsWith s p \<longleftrightarrow> take (length p) s = p"

fun split_on :: "char \<Rightarrow> string \<Rightarrow> string list" where
  \<comment> \<open>\<open>s.split(c)\<close> for a separator of one code unit; the empty string gives one empty piece.\<close>
  "split_on c [] = [[]]"
| "split_on c (x # xs) =
     (if x = c then [] # split_on c xs
      else (case split_on c xs of
              [] \<Rightarrow> [[x]]
            | piece # pieces \<Rightarrow> (x # piece) # pieces))"

definition second_piece :: "string list \<Rightarrow> string" where
  \<comment> \<open>\<open>pieces[1]\<close>, as the number parsers see it: a missing element is \<open>undefined\<close>,
      which they turn into the string "undefined".\<close>
  "second_piece pieces = (case pieces of _ # p # _ \<Rightarrow> p | _ \<Rightarrow> ''undefined'')"

definition is_digit :: "char \<Rightarrow> bool" where
  "is_digit c \<longleftrightarrow> 48 \<le> (of_char c :: nat) \<and> (of_char c :: nat) \<le> 57"

definition digit_value :: "char \<Rightarrow> nat" where
  "digit_value c = (of_char c :: nat) - 48"

definition is_hex_digit :: "char \<Rightarrow> bool" where
  "is_hex_digit c \<longleftrightarrow>
     is_digit c \<or> (65 \<le> (of_char c :: nat) \<and> (of_char c :: nat) \<le> 70)
       \<or> (97 \<le> (of_char c :: nat) \<and> (of_char c :: nat) \<le> 102)"

definition hex_digit_value :: "char \<Rightarrow> nat" where
  "hex_digit_value c =
     (let n = (of_char c :: nat)
      in if n \<le> 57 then n - 48 else if n \<le> 70 then n - 55 else n - 87)"

definition digits_value :: "nat \<Rightarrow> (char \<Rightarrow> nat) \<Rightarrow> string \<Rightarrow> nat" where
  "digits_value radix val ds = foldl (\<lambda>acc c. radix * acc + val c) 0 ds"

definition strip_sign :: "string \<Rightarrow> bool \<times> string" where
  \<comment> \<open>An optional leading sign: whether it is a minus, and the rest.\<close>
  "strip_sign s =
     (case s of
        [] \<Rightarrow> (False, [])
      | c # r \<Rightarrow> if c = CHR ''-'' then (True, r)
                 else if c = CHR ''+'' then (False, r)
                 else (False, s))"

definition exponent_part :: "string \<Rightarrow> int" where
  \<comment> \<open>The value of an ExponentPart at the head of the string, 0 when there is none.\<close>
  "exponent_part s =
     (case s of
        [] \<Rightarrow> 0
      | c # r \<Rightarrow>
          if c = CHR ''e'' \<or> c = CHR ''E'' then
            (let (neg, d) = strip_sign r; ds = takeWhile is_digit d
             in if ds = [] then 0
                else if neg then - int (digits_value 10 digit_value ds)
                else int (digits_value 10 digit_value ds))
          else 0)"

definition parseFloat :: "(rat \<Rightarrow> rat) \<Rightarrow> string \<Rightarrow> jsnum" where
  \<comment> \<open>The longest prefix of the string, after leading white space, that is a
      StrDecimalLiteral; \<open>NaN\<close> when no prefix is one.\<close>
  "parseFloat fl s =
     (let (neg, u) = strip_sign (trimStart s)
      in if startsWith u ''Infinity'' then (if neg then NegInfinity else PosInfinity)
         else
           (let ip = takeWhile is_digit u;
                r1 = dropWhile is_digit u;
                (fp, r2) = (case r1 of
                              [] \<Rightarrow> ([], r1)
                            | c # r \<Rightarrow> if c = CHR ''.''
                                       then (takeWhile is_digit r, dropWhile is_digit r)
                                       else ([], r1))
            in if ip = [] \<and> fp = [] then NaN
               else
                 (let m = rat_of_nat (digits_value 10 digit_value (ip @ fp)) / 10 ^ length fp;
                      e = exponent_part r2;
                      v = (if 0 \<le> e then m * 10 ^ nat e else m / 10 ^ nat (- e))
                  in js_number fl (if neg then - v else v))))"

definition parseInt :: "(rat \<Rightarrow> rat) \<Rightarrow> string \<Rightarrow> jsnum" where
  \<comment> \<open>\<open>parseInt(s)\<close> without a radix: decimal, or hexadecimal after a \<open>0x\<close> prefix.\<close>
  "parseInt fl s =
     (let (neg, u) = strip_sign (trimStart s);
          hex = (startsWith u ''0x'' \<or> startsWith u ''0X'');
          z = (if hex then takeWhile is_hex_digit (drop 2 u) else takeWhile is_digit u)
      in if z = [] then NaN
         else
           (let v = rat_of_nat (if hex then digits_value 16 hex_digit_value z
                                else digits_value 10 digit_value z)
            in js_number fl (if neg then - v else v)))"

fun nat_to_string :: "nat \<Rightarrow> string" where
  \<comment> \<open>The decimal digits of an array length, as a template literal prints it.\<close>
  "nat_to_string n =
     (if n < 10 then [char_of (48 + n)]
      else nat_to_string (n div 10) @ [char_of (48 + n mod 10)])"

declare nat_to_string.simps [simp del]

definition error_toString :: "js_error \<Rightarrow> string" where
  \<comment> \<open>\<open>Error.prototype.toString\<close>\<close>
  "error_toString e =
     (if name e = [] then message e
      else if message e = [] then name e
      else name e @ '': '' @ message e)"

section \<open>The playlist parser\<close>

record M3U8Segment =
  duration :: jsnum
  uri :: string
  title :: "string option"

record M3U8Playlist =
  segments :: "M3U8Segment list"
  totalDuration :: jsnum
  targetDuration :: jsnum
  version :: jsnum
  mediaSequence :: jsnum

definition lastIndexOf :: "string \<Rightarrow> char \<Rightarrow> int" where
  \<comment> \<open>The index of the last occurrence of the code unit, \<open>-1\<close> when there is none.\<close>
  "lastIndexOf s c =
     (case dropWhile (\<lambda>x. x \<noteq> c) (rev s) of
        [] \<Rightarrow> - 1
      | _ # front \<Rightarrow> int (length front))"

definition substring :: "string \<Rightarrow> int \<Rightarrow> int \<Rightarrow> string" where
  \<comment> \<open>\<open>s.substring(a, b)\<close>: both indices clamped to the string, swapped when out of order.\<close>
  "substring s a b =
     (let n = int (length s);
          a' = min (max a 0) n;
          b' = min (max b 0) n;
          lo = min a' b';
          hi = max a' b'
      in take (nat (hi - lo)) (drop (nat lo) s))"

definition resolveUrl :: "string \<Rightarrow> string \<Rightarrow> string" where
  "resolveUrl url baseUrl =
     (if startsWith url ''http://'' \<or> startsWith url ''https://'' then url
      else
        (let baseDir = substring baseUrl 0 (lastIndexOf baseUrl (CHR ''/'') + 1)
         in baseDir @ url))"

definition is_extinf_char :: "char \<Rightarrow> bool" where
  \<comment> \<open>The character class \<open>[\d.]\<close>\<close>
  "is_extinf_char c \<longleftrightarrow> is_digit c \<or> c = CHR ''.''"

fun extinf_match :: "string \<Rightarrow> string option" where
  \<comment> \<open>\<open>line.match(/#EXTINF:([\d.]+),?(.*)?/)\<close>: group 1 of the leftmost match. The
      pattern is not anchored; after the tag the greedy class takes the whole run of
      digits and dots, and the rest of the pattern matches anything.\<close>
  "extinf_match [] = None"
| "extinf_match (c # cs) =
     (if startsWith (c # cs) ''#EXTINF:'' \<and> takeWhile is_extinf_char (drop 8 (c # cs)) \<noteq> []
      then Some (takeWhile is_extinf_char (drop 8 (c # cs)))
      else extinf_match cs)"

record scan_state =
  segs :: "M3U8Segment list"
  currentDuration :: jsnum
  targetDuration_s :: jsnum
  version_s :: jsnum
  mediaSequence_s :: jsnum

definition initial_scan :: scan_state where
  "initial_scan =
     \<lparr>segs = [], currentDuration = Finite 0, targetDuration_s = Finite 0,
      version_s = Finite 1, mediaSequence_s = Finite 0\<rparr>"

definition scan_line :: "(rat \<Rightarrow> rat) \<Rightarrow> string \<Rightarrow> scan_state \<Rightarrow> string \<Rightarrow> scan_state" where
  \<comment> \<open>The body of the loop over the lines.\<close>
  "scan_line fl baseUrl st line =
     (if startsWith line ''#EXT-X-VERSION:'' then
        st\<lparr>version_s := parseInt fl (second_piece (split_on (CHR '':'') line))\<rparr>
      else if startsWith line ''#EXT-X-TARGETDURATION:'' then
        st\<lparr>targetDuration_s := parseFloat fl (second_piece (split_on (CHR '':'') line))\<rparr>
      else if startsWith line ''#EXT-X-MEDIA-SEQUENCE:'' then
        st\<lparr>mediaSequence_s := parseInt fl (second_piece (split_on (CHR '':'') line))\<rparr>
      else if startsWith line ''#EXTINF:'' then
        (case extinf_match line of
           Some d \<Rightarrow> st\<lparr>currentDuration := parseFloat fl d\<rparr>
         | None \<Rightarrow> st)
      else if \<not> startsWith line ''#'' \<and> 0 < length line then
        st\<lparr>segs := segs st @
              [\<lparr>duration = currentDuration st,
                uri = resolveUrl line baseUrl,
                title = Some (''Segment '' @ nat_to_string (length (segs st) + 1))\<rparr>],
           currentDuration := Finite 0\<rparr>
      else st)"

definition split_lines :: "string \<Rightarrow> string list" where
  \<comment> \<open>\<open>content.split('\n').map(line => line.trim()).filter(line => line)\<close>\<close>
  "split_lines content = filter (\<lambda>line. line \<noteq> []) (map trim (split_on LF content))"

definition format_error :: js_error where
  "format_error = \<lparr>name = ''Error'', message = ''Invalid M3U8 file format''\<rparr>"

definition undefined_property_error :: js_error where
  \<comment> \<open>Reading \<open>startsWith\<close> of \<open>lines[0]\<close> when there is no line: \<open>undefined\<close> has no
      properties. The name is fixed by the language, the message is the engine's.\<close>
  "undefined_property_error =
     \<lparr>name = ''TypeError'',
      message = ''Cannot read properties of undefined (reading 'startsWith')''\<rparr>"

definition parsePlaylist :: "(rat \<Rightarrow> rat) \<Rightarrow> string \<Rightarrow> string \<Rightarrow> js_error + M3U8Playlist" where
  "parsePlaylist fl content baseUrl =
     (let lines = split_lines content
      in case lines of
           [] \<Rightarrow> Inl undefined_property_error
         | first # _ \<Rightarrow>
             if \<not> startsWith first ''#EXTM3U'' then Inl format_error
             else
               (let st = foldl (scan_line fl baseUrl) initial_scan lines
                in Inr \<lparr>segments = segs st,
                        totalDuration = foldl (jsadd fl) (Finite 0) (map duration (segs st)),
                        targetDuration = targetDuration_s st,
                        version = version_s st,
                        mediaSequence = mediaSequence_s st\<rparr>))"

section \<open>The downloader\<close>

text \<open>
  The run is modelled by explicit state passing. The state holds the downloader's abort
  controller (\<open>None\<close> for \<open>null\<close>, otherwise whether its signal is aborted), the local
  variables of \<open>downloadM3U8\<close>, and a log of what the run did to the outside: the calls of
  \<open>onProgress\<close> and \<open>onError\<close> and the addresses passed to \<open>fetch\<close>.

  The outside is an environment: what the i-th fetch yields, and whether the progress
  callback calls \<open>cancelDownload\<close>. The code runs without interruption from the creation of
  the controller to the first fetch, so only the callback can abort the signal before a
  fetch starts; a cancellation while a fetch or the reading of its body is pending makes
  that fetch reject with an error named \<open>AbortError\<close>. Every rejection is an instance of
  \<open>Error\<close>, as those of \<open>fetch\<close> are. A call of \<open>cancelDownload\<close> before the run acts on the
  controller of an earlier run: \<open>downloadM3U8\<close> starts by creating a new one. The two
  callbacks are taken to return normally.

  A fetch has one of three outcomes: the response is ok and its body is read (\<open>Body\<close>); the
  response is not ok, with its status text (\<open>NotOk\<close>); \<open>fetch\<close> or the reading of the
  body is rejected with an error (\<open>Rejected\<close>).
\<close>

record DownloadProgress =
  segmentIndex :: nat
  totalSegments :: nat
  downloadedBytes :: nat
  totalBytes :: nat
  percentage :: int

record Blob =
  blob_bytes :: "byte list"
  blob_type :: string

datatype fetch_outcome =
    Body "byte list"
  | NotOk string
  | Rejected js_error

record environment =
  fetch :: "nat \<Rightarrow> string \<Rightarrow> fetch_outcome"
  progress_cancels :: "nat \<Rightarrow> bool"

record run_state =
  abortController :: "bool option"
  buffers :: "byte list list"
  total_bytes :: nat
  downloaded_bytes :: nat
  progress_log :: "DownloadProgress list"
  error_log :: "string list"
  fetch_log :: "string list"

definition cancelDownload :: "run_state \<Rightarrow> run_state" where
  "cancelDownload st =
     (case abortController st of
        None \<Rightarrow> st
      | Some _ \<Rightarrow> st\<lparr>abortController := Some True\<rparr>)"

definition signal_aborted :: "run_state \<Rightarrow> bool" where
  "signal_aborted st \<longleftrightarrow> abortController st = Some True"

definition onProgress :: "environment \<Rightarrow> DownloadProgress \<Rightarrow> run_state \<Rightarrow> run_state" where
  \<comment> \<open>A call of the progress callback: it is logged, and the callback may cancel.\<close>
  "onProgress env p st =
     (let st' = st\<lparr>progress_log := progress_log st @ [p]\<rparr>
      in if progress_cancels env (segmentIndex p) then cancelDownload st' else st')"

definition onError :: "string \<Rightarrow> run_state \<Rightarrow> run_state" where
  "onError msg st = st\<lparr>error_log := error_log st @ [msg]\<rparr>"

definition cancelled_error :: js_error where
  "cancelled_error = \<lparr>name = ''Error'', message = ''Download cancelled''\<rparr>"

definition range_error :: js_error where
  "range_error = \<lparr>name = ''RangeError'', message = ''offset is out of bounds''\<rparr>"

definition percentage_of :: "(rat \<Rightarrow> rat) \<Rightarrow> nat \<Rightarrow> nat \<Rightarrow> int" where
  \<comment> \<open>\<open>Math.round(((i + 1) / length) * 100)\<close>: the quotient and the product are each
      rounded to a double.\<close>
  "percentage_of fl i n = Math_round (fl (fl (rat_of_nat (i + 1) / rat_of_nat n) * 100))"

definition inner_catch :: "nat \<Rightarrow> js_error \<Rightarrow> run_state \<Rightarrow> (js_error + unit) \<times> run_state" where
  \<comment> \<open>The handler around one segment: an abort is passed on, anything else is reported
      through \<open>onError\<close> and thrown again.\<close>
  "inner_catch i e st =
     (if name e = ''AbortError'' then (Inl e, st)
      else (Inl e,
            onError (''Error downloading segment '' @ nat_to_string (i + 1) @ '': ''
                       @ error_toString e) st))"

definition outer_catch :: "js_error \<Rightarrow> js_error" where
  "outer_catch e = (if name e = ''AbortError'' then cancelled_error else e)"

fun download_loop ::
  "(rat \<Rightarrow> rat) \<Rightarrow> environment \<Rightarrow> nat \<Rightarrow> nat \<Rightarrow> M3U8Segment list \<Rightarrow> run_state
     \<Rightarrow> (js_error + unit) \<times> run_state" where
  \<comment> \<open>The loop over the segments from index \<open>i\<close> on; \<open>n\<close> is \<open>playlist.segments.length\<close>.\<close>
  "download_loop fl env n i [] st = (Inr (), st)"
| "download_loop fl env n i (segment # rest) st =
     (if signal_aborted st then (Inl cancelled_error, st)
      else
        (let st1 = st\<lparr>fetch_log := fetch_log st @ [uri segment]\<rparr>
         in case fetch env i (uri segment) of
              Rejected e \<Rightarrow> inner_catch i e st1
            | NotOk statusText \<Rightarrow>
                inner_catch i
                  \<lparr>name = ''Error'',
                   message = ''Failed to download segment '' @ nat_to_string (i + 1) @ '': ''
                               @ statusText\<rparr> st1
            | Body uint8Array \<Rightarrow>
                (let st2 = st1\<lparr>buffers := buffers st1 @ [uint8Array],
                               downloaded_bytes := downloaded_bytes st1 + length uint8Array,
                               total_bytes := total_bytes st1 + length uint8Array\<rparr>;
                     st3 = onProgress env
                             \<lparr>segmentIndex = i + 1,
                              totalSegments = n,
                              downloadedBytes = downloaded_bytes st2,
                              totalBytes = total_bytes st2,
                              percentage = percentage_of fl i n\<rparr> st2
                 in download_loop fl env n (i + 1) rest st3)))"

definition typed_array_set :: "byte list \<Rightarrow> byte list \<Rightarrow> nat \<Rightarrow> js_error + byte list" where
  \<comment> \<open>\<open>target.set(source, offset)\<close>: a source that does not fit is a RangeError.\<close>
  "typed_array_set target source offset =
     (if length target < offset + length source then Inl range_error
      else Inr (take offset target @ source @ drop (offset + length source) target))"

fun combine_loop :: "byte list list \<Rightarrow> nat \<Rightarrow> byte list \<Rightarrow> js_error + byte list" where
  "combine_loop [] offset combined = Inr combined"
| "combine_loop (segment # rest) offset combined =
     (case typed_array_set combined segment offset of
        Inl e \<Rightarrow> Inl e
      | Inr combined' \<Rightarrow> combine_loop rest (offset + length segment) combined')"

definition combine :: "byte list list \<Rightarrow> js_error + byte list" where
  "combine bufs =
     (let totalLength = foldl (\<lambda>sum segment. sum + length segment) 0 bufs;
          combined = replicate totalLength 0
      in combine_loop bufs 0 combined)"

definition initial_run :: run_state where
  "initial_run =
     \<lparr>abortController = Some False, buffers = [], total_bytes = 0, downloaded_bytes = 0,
      progress_log = [], error_log = [], fetch_log = []\<rparr>"

definition downloadM3U8 ::
  "(rat \<Rightarrow> rat) \<Rightarrow> environment \<Rightarrow> M3U8Playlist \<Rightarrow> (js_error + Blob) \<times> run_state" where
  "downloadM3U8 fl env playlist =
     (let st1 = onProgress env
                  \<lparr>segmentIndex = 0,
                   totalSegments = length (segments playlist),
                   downloadedBytes = 0,
                   totalBytes = 0,
                   percentage = 0\<rparr> initial_run
      in case download_loop fl env (length (segments playlist)) 0 (segments playlist) st1 of
           (Inl e, st2) \<Rightarrow> (Inl (outer_catch e), st2)
         | (Inr _, st2) \<Rightarrow>
             (case combine (buffers st2) of
                Inl e \<Rightarrow> (Inl (outer_catch e), st2)
              | Inr combined \<Rightarrow>
                  (Inr \<lparr>blob_bytes = combined, blob_type = ''video/mp4''\<rparr>, st2)))"

section \<open>Notions of the specification and sample inputs\<close>

definition has_header :: "string \<Rightarrow> bool" where
  \<comment> \<open>The first trimmed non-blank line of the text starts with the header tag.\<close>
  "has_header content =
     (case split_lines content of
        [] \<Rightarrow> False
      | first # _ \<Rightarrow> startsWith first ''#EXTM3U'')"


definition example_text :: string where
  "example_text =
     ''#EXTM3U'' @ [LF] @ ''#EXT-X-VERSION:3'' @ [LF] @ ''#EXTINF:9.5,'' @ [LF] @ ''seg1.ts''
       @ [LF] @ ''#EXTINF:9.5,'' @ [LF] @ ''seg2.ts'' @ [LF]"

definition example_base :: string where
  "example_base = ''https://host/path/index.m3u8''"

definition example_playlist :: M3U8Playlist where
  "example_playlist =
     \<lparr>segments =
        [\<lparr>duration = Finite (19 / 2), uri = ''https://host/path/seg1.ts'',
          title = Some ''Segment 1''\<rparr>,
         \<lparr>duration = Finite (19 / 2), uri = ''https://host/path/seg2.ts'',
          title = Some ''Segment 2''\<rparr>],
      totalDuration = Finite 19, targetDuration = Finite 0, version = Finite 3,
      mediaSequence = Finite 0\<rparr>"

definition titled_text :: string where
  "titled_text =
     ''  #EXTM3U'' @ [LF] @ [LF] @ ''#EXTINF:4,Opening credits'' @ [LF] @ ''http://cdn/a.ts''
       @ [LF] @ ''# a remark'' @ [LF] @ ''#EXTINF:6.25,Part two'' @ [LF] @ '' b.ts ''"

definition titled_playlist :: M3U8Playlist where
  "titled_playlist =
     \<lparr>segments =
        [\<lparr>duration = Finite 4, uri = ''http://cdn/a.ts'', title = Some ''Segment 1''\<rparr>,
         \<lparr>duration = Finite (25 / 4), uri = ''https://host/path/b.ts'',
          title = Some ''Segment 2''\<rparr>],
      totalDuration = Finite (41 / 4), targetDuration = Finite 0, version = Finite 1,
      mediaSequence = Finite 0\<rparr>"

definition segment_bodies :: "byte list list" where
  "segment_bodies = [[1, 2], [3]]"

definition healthy_network :: environment where
  \<comment> \<open>Every fetch succeeds, the callback never cancels.\<close>
  "healthy_network =
     \<lparr>fetch = (\<lambda>i address. Body (if i = 0 then [1, 2] else [3])),
      progress_cancels = (\<lambda>k. False)\<rparr>"

definition not_found_network :: environment where
  \<comment> \<open>The second fetch gets a response that is not ok.\<close>
  "not_found_network =
     \<lparr>fetch = (\<lambda>i address. if i = 0 then Body [1, 2] else NotOk ''Not Found''),
      progress_cancels = (\<lambda>k. False)\<rparr>"

definition unreachable_network :: environment where
  \<comment> \<open>The first fetch is rejected, as when the host cannot be reached.\<close>
  "unreachable_network =
     \<lparr>fetch = (\<lambda>i address. Rejected \<lparr>name = ''TypeError'', message = ''Failed to fetch''\<rparr>),
      progress_cancels = (\<lambda>k. False)\<rparr>"

definition late_unreachable_network :: environment where
  \<comment> \<open>The first fetch succeeds, the second is rejected in the same way.\<close>
  "late_unreachable_network =
     \<lparr>fetch = (\<lambda>i address. if i = 0 then Body [1, 2]
                              else Rejected \<lparr>name = ''TypeError'', message = ''Failed to fetch''\<rparr>),
      progress_cancels = (\<lambda>k. False)\<rparr>"

definition cancelling_callback :: environment where
  \<comment> \<open>The progress callback calls \<open>cancelDownload\<close> when it gets the initial event.\<close>
  "cancelling_callback =
     \<lparr>fetch = (\<lambda>i address. Body [1, 2]),
      progress_cancels = (\<lambda>k. k = 0)\<rparr>"

definition empty_playlist :: M3U8Playlist where
  \<comment> \<open>What the parser returns for a text that is the header line alone.\<close>
  "empty_playlist =
     \<lparr>segments = [], totalDuration = Finite 0, targetDuration = Finite 0, version = Finite 1,
      mediaSequence = Finite 0\<rparr>"

section \<open>Properties of the parser\<close>

subsection \<open>Prefixes and the scan of one line\<close>

lemma startsWith_append: "startsWith s (p @ q) \<Longrightarrow> startsWith s p"
proof -
  assume h: "startsWith s (p @ q)"
  have "take (length p) s = take (length p) (take (length (p @ q)) s)"
    by (simp add: min_def)
  also have "\<dots> = take (length p) (p @ q)"
    using h by (simp add: startsWith_def)
  finally show ?thesis by (simp add: startsWith_def)
qed

lemma tag_is_comment:
  "startsWith s ''#EXT-X-VERSION:'' \<Longrightarrow> startsWith s ''#''"
  "startsWith s ''#EXT-X-TARGETDURATION:'' \<Longrightarrow> startsWith s ''#''"
  "startsWith s ''#EXT-X-MEDIA-SEQUENCE:'' \<Longrightarrow> startsWith s ''#''"
  "startsWith s ''#EXTINF:'' \<Longrightarrow> startsWith s ''#''"
  using startsWith_append [of s "''#''" "''EXT-X-VERSION:''"]
        startsWith_append [of s "''#''" "''EXT-X-TARGETDURATION:''"]
        startsWith_append [of s "''#''" "''EXT-X-MEDIA-SEQUENCE:''"]
        startsWith_append [of s "''#''" "''EXTINF:''"]
  by simp_all

lemma segs_scan_line:
  "segs (scan_line fl b st line) =
     (if line \<noteq> [] \<and> \<not> startsWith line ''#''
      then segs st @ [\<lparr>duration = currentDuration st, uri = resolveUrl line b,
                        title = Some (''Segment '' @ nat_to_string (length (segs st) + 1))\<rparr>]
      else segs st)"
  using tag_is_comment [of line]
  by (auto simp: scan_line_def split: option.splits)

lemma uris_scan:
  "map uri (segs (foldl (scan_line fl b) st ls)) =
     map uri (segs st) @
       map (\<lambda>l. resolveUrl l b) (filter (\<lambda>l. l \<noteq> [] \<and> \<not> startsWith l ''#'') ls)"
proof (induction ls arbitrary: st)
  case Nil
  show ?case by simp
next
  case (Cons l ls)
  show ?case by (simp add: Cons.IH segs_scan_line)
qed

lemma filter_split_lines:
  "filter (\<lambda>l. l \<noteq> [] \<and> \<not> startsWith l ''#'') (split_lines content) =
   map trim (filter (\<lambda>l. trim l \<noteq> [] \<and> \<not> startsWith (trim l) ''#'') (split_on LF content))"
  by (simp add: split_lines_def filter_map comp_def conj_commute)

lemma parsePlaylist_accepts:
  "has_header content \<Longrightarrow>
   parsePlaylist fl content b =
     Inr \<lparr>segments = segs (foldl (scan_line fl b) initial_scan (split_lines content)),
          totalDuration = foldl (jsadd fl) (Finite 0)
             (map duration (segs (foldl (scan_line fl b) initial_scan (split_lines content)))),
          targetDuration =
             targetDuration_s (foldl (scan_line fl b) initial_scan (split_lines content)),
          version = version_s (foldl (scan_line fl b) initial_scan (split_lines content)),
          mediaSequence =
             mediaSequence_s (foldl (scan_line fl b) initial_scan (split_lines content))\<rparr>"
  by (auto simp: parsePlaylist_def has_header_def Let_def split: list.splits)

lemma parsePlaylist_Inr:
  "parsePlaylist fl content b = Inr p \<Longrightarrow> has_header content"
  by (auto simp: parsePlaylist_def has_header_def Let_def split: list.splits if_splits)

lemma example_parse:
  "parsePlaylist (\<lambda>x. x) example_text example_base = Inr example_playlist"
  by code_simp

lemma titled_parse:
  "parsePlaylist (\<lambda>x. x) titled_text example_base = Inr titled_playlist"
  by code_simp

subsection \<open>Segments and lines\<close>

text \<open>
  Claim C1. When the first trimmed non-blank line of the text starts with the header tag,
  \<open>parsePlaylist\<close> returns a playlist, and its segments are, in order, the lines of the
  text that after trimming are neither blank nor start with \<open>#\<close>: the list of the segment
  addresses is the list of these lines, each trimmed and resolved, so there is one segment
  for each such line.
\<close>

theorem segments_follow_lines:
  assumes "has_header content"
  shows "\<exists>p. parsePlaylist fl content baseUrl = Inr p \<and>
             map uri (segments p) =
               map (\<lambda>l. resolveUrl (trim l) baseUrl)
                 (filter (\<lambda>l. trim l \<noteq> [] \<and> \<not> startsWith (trim l) ''#'')
                    (split_on LF content)) \<and>
             length (segments p) =
               length (filter (\<lambda>l. trim l \<noteq> [] \<and> \<not> startsWith (trim l) ''#'')
                         (split_on LF content))"
proof -
  let ?st = "foldl (scan_line fl baseUrl) initial_scan (split_lines content)"
  let ?keep = "filter (\<lambda>l. trim l \<noteq> [] \<and> \<not> startsWith (trim l) ''#'') (split_on LF content)"
  have "map uri (segs ?st) =
          map (\<lambda>l. resolveUrl l baseUrl)
            (filter (\<lambda>l. l \<noteq> [] \<and> \<not> startsWith l ''#'') (split_lines content))"
    by (simp add: uris_scan initial_scan_def)
  then have u: "map uri (segs ?st) = map (\<lambda>l. resolveUrl (trim l) baseUrl) ?keep"
    by (simp add: filter_split_lines comp_def)
  from arg_cong [OF u, of length] have "length (segs ?st) = length ?keep"
    by simp
  with u show ?thesis
    by (simp add: parsePlaylist_accepts [OF assms])
qed

theorem segments_follow_lines_witness:
  "has_header titled_text \<and>
   (\<exists>p. parsePlaylist (\<lambda>x. x) titled_text example_base = Inr p \<and>
        map uri (segments p) = [''http://cdn/a.ts'', ''https://host/path/b.ts''] \<and>
        length (segments p) = 2)"
proof -
  have h: "has_header titled_text"
    by code_simp
  have u: "map (\<lambda>l. resolveUrl (trim l) example_base)
             (filter (\<lambda>l. trim l \<noteq> [] \<and> \<not> startsWith (trim l) ''#'') (split_on LF titled_text)) =
           [''http://cdn/a.ts'', ''https://host/path/b.ts'']"
    by code_simp
  have n: "length (filter (\<lambda>l. trim l \<noteq> [] \<and> \<not> startsWith (trim l) ''#'')
             (split_on LF titled_text)) = 2"
    by code_simp
  from segments_follow_lines [OF h, of "\<lambda>x. x" example_base]
  have "\<exists>p. parsePlaylist (\<lambda>x. x) titled_text example_base = Inr p \<and>
            map uri (segments p) = [''http://cdn/a.ts'', ''https://host/path/b.ts''] \<and>
            length (segments p) = 2"
    unfolding u n .
  with h show ?thesis by blast
qed

subsection \<open>The header check\<close>

text \<open>
  Claim C6, as amended. When the text has a non-blank line and the first trimmed non-blank
  line does not start with the header tag, \<open>parsePlaylist\<close> fails with the format error
  (the error with the message "Invalid M3U8 file format"), whatever the other lines are.
  A text without any non-blank line does not reach the format check: reading \<open>lines[0]\<close>
  gives \<open>undefined\<close>, and the call of its \<open>startsWith\<close> raises a TypeError. The caller in
  \<open>App.tsx\<close> rejects a blank response before it calls the parser.
\<close>

theorem wrong_header_is_format_error:
  assumes "split_lines content = first # rest" and "\<not> startsWith first ''#EXTM3U''"
  shows "parsePlaylist fl content baseUrl = Inl format_error"
  using assms by (simp add: parsePlaylist_def)

theorem wrong_header_is_format_error_witness:
  "split_lines (''#EXTINF:9.5,'' @ [LF] @ ''seg1.ts'') = [''#EXTINF:9.5,'', ''seg1.ts''] \<and>
   \<not> startsWith ''#EXTINF:9.5,'' ''#EXTM3U'' \<and>
   parsePlaylist (\<lambda>x. x) (''#EXTINF:9.5,'' @ [LF] @ ''seg1.ts'') example_base = Inl format_error"
proof -
  have l: "split_lines (''#EXTINF:9.5,'' @ [LF] @ ''seg1.ts'') = [''#EXTINF:9.5,'', ''seg1.ts'']"
    by code_simp
  have h: "\<not> startsWith ''#EXTINF:9.5,'' ''#EXTM3U''"
    by code_simp
  from wrong_header_is_format_error [OF l h, of "\<lambda>x. x" example_base] l h
  show ?thesis by simp
qed

theorem blank_text_is_type_error:
  "split_lines [] = [] \<and>
   parsePlaylist (\<lambda>x. x) [] example_base = Inl undefined_property_error \<and>
   parsePlaylist (\<lambda>x. x) ('' '' @ [LF] @ ''  '') example_base = Inl undefined_property_error \<and>
   undefined_property_error \<noteq> format_error"
  by code_simp

subsection \<open>Address resolution\<close>

lemma lastIndexOf_last:
  assumes "c \<notin> set post"
  shows "lastIndexOf (pre @ c # post) c = int (length pre)"
proof -
  have found: "dropWhile (\<lambda>x. x \<noteq> c) (rev post @ c # rev pre) = c # rev pre"
    using assms by (auto simp: dropWhile_append3)
  show ?thesis unfolding lastIndexOf_def by (simp add: found)
qed

lemma lastIndexOf_none:
  assumes "c \<notin> set s"
  shows "lastIndexOf s c = - 1"
proof -
  have none: "dropWhile (\<lambda>x. x \<noteq> c) (rev s) = []"
    using assms by auto
  show ?thesis unfolding lastIndexOf_def none by simp
qed

lemma substring_prefix:
  "substring (pre @ c # post) 0 (int (length pre) + 1) = pre @ [c]"
proof -
  have "nat (int (length pre) + 1) = Suc (length pre)"
    by simp
  then show ?thesis
    by (simp add: substring_def Let_def min_def max_def)
qed

lemma substring_nothing: "substring s 0 0 = []"
  by (simp add: substring_def)

text \<open>
  Claim C7. A reference that starts with \<open>http://\<close> or \<open>https://\<close> is returned as it is.
  Otherwise, when \<open>pre\<close> is the part of the base address before its last \<open>/\<close>, the result
  is \<open>pre\<close>, the \<open>/\<close> and the reference: the base address cut just after its last \<open>/\<close>, with
  the reference appended. (A base address without any \<open>/\<close> contributes nothing: the result
  is the reference.)
\<close>

theorem resolveUrl_cases:
  "(startsWith url ''http://'' \<or> startsWith url ''https://'' \<longrightarrow> resolveUrl url baseUrl = url) \<and>
   (\<not> (startsWith url ''http://'' \<or> startsWith url ''https://'') \<longrightarrow>
      (\<forall>pre post. baseUrl = pre @ ''/'' @ post \<and> CHR ''/'' \<notin> set post \<longrightarrow>
         resolveUrl url baseUrl = pre @ ''/'' @ url) \<and>
      (CHR ''/'' \<notin> set baseUrl \<longrightarrow> resolveUrl url baseUrl = url))"
  by (auto simp: resolveUrl_def Let_def lastIndexOf_last lastIndexOf_none substring_prefix
      substring_nothing)

theorem resolveUrl_cases_witness:
  "resolveUrl ''https://cdn/x.ts'' example_base = ''https://cdn/x.ts'' \<and>
   resolveUrl ''seg1.ts'' example_base = ''https://host/path/seg1.ts'' \<and>
   resolveUrl ''seg1.ts'' ''index.m3u8'' = ''seg1.ts''"
proof -
  have a: "startsWith ''https://cdn/x.ts'' ''https://''"
    by code_simp
  from resolveUrl_cases [of "''https://cdn/x.ts''" example_base] a
  have r1: "resolveUrl ''https://cdn/x.ts'' example_base = ''https://cdn/x.ts''"
    by blast
  have b: "\<not> (startsWith ''seg1.ts'' ''http://'' \<or> startsWith ''seg1.ts'' ''https://'')"
    by code_simp
  have c: "example_base = ''https://host/path'' @ ''/'' @ ''index.m3u8'' \<and>
           CHR ''/'' \<notin> set ''index.m3u8''"
    by (simp add: example_base_def)
  from resolveUrl_cases [of "''seg1.ts''" example_base] b c
  have "resolveUrl ''seg1.ts'' example_base = ''https://host/path'' @ ''/'' @ ''seg1.ts''"
    by blast
  then have r2: "resolveUrl ''seg1.ts'' example_base = ''https://host/path/seg1.ts''"
    by simp
  have d: "CHR ''/'' \<notin> set ''index.m3u8''"
    by simp
  from resolveUrl_cases [of "''seg1.ts''" "''index.m3u8''"] b d
  have r3: "resolveUrl ''seg1.ts'' ''index.m3u8'' = ''seg1.ts''"
    by blast
  from r1 r2 r3 show ?thesis by simp
qed

subsection \<open>The total duration\<close>

text \<open>
  Claim C8. The total duration of a returned playlist is the sum of the durations of its
  segments: the sum that \<open>reduce\<close> forms from 0, from left to right, with the addition of
  numbers. (When a duration is \<open>NaN\<close> both are \<open>NaN\<close>: the same value, though \<open>===\<close> does not
  hold between \<open>NaN\<close> and itself.)
\<close>

theorem totalDuration_is_sum:
  assumes "parsePlaylist fl content baseUrl = Inr p"
  shows "totalDuration p = foldl (jsadd fl) (Finite 0) (map duration (segments p))"
  using assms parsePlaylist_accepts [OF parsePlaylist_Inr [OF assms], of fl baseUrl]
  by auto

theorem totalDuration_is_sum_witness:
  "parsePlaylist (\<lambda>x. x) example_text example_base = Inr example_playlist \<and>
   map duration (segments example_playlist) = [Finite (19 / 2), Finite (19 / 2)] \<and>
   totalDuration example_playlist =
     foldl (jsadd (\<lambda>x. x)) (Finite 0) (map duration (segments example_playlist)) \<and>
   totalDuration example_playlist = Finite 19"
  using totalDuration_is_sum [OF example_parse] example_parse
  by (simp add: example_playlist_def)

subsection \<open>Titles\<close>

lemma titles_scan:
  assumes "map title (segs st) =
             map (\<lambda>k. Some (''Segment '' @ nat_to_string k)) [1..<length (segs st) + 1]"
  shows "map title (segs (foldl (scan_line fl b) st ls)) =
           map (\<lambda>k. Some (''Segment '' @ nat_to_string k))
             [1..<length (segs (foldl (scan_line fl b) st ls)) + 1]"
  using assms
proof (induction ls arbitrary: st)
  case Nil
  then show ?case by simp
next
  case (Cons l ls)
  have "map title (segs (scan_line fl b st l)) =
          map (\<lambda>k. Some (''Segment '' @ nat_to_string k))
            [1..<length (segs (scan_line fl b st l)) + 1]"
  proof (cases "l \<noteq> [] \<and> \<not> startsWith l ''#''")
    case True
    have "[1..<length (segs st) + 1 + 1] = [1..<length (segs st) + 1] @ [length (segs st) + 1]"
      by simp
    with True Cons.prems show ?thesis
      by (simp add: segs_scan_line del: upt_Suc)
  next
    case False
    with Cons.prems show ?thesis
      by (auto simp: segs_scan_line simp del: upt_Suc)
  qed
  from Cons.IH [OF this] show ?case by simp
qed

text \<open>
  Claim C10. In a returned playlist the k-th segment, counted from 1, has the title
  "Segment k" (k in decimal digits): the list of the titles is the list of these labels
  for k from 1 to the number of segments. The text after the comma of a duration line
  has no part in it.
\<close>

theorem titles_are_ordinal_labels:
  assumes "parsePlaylist fl content baseUrl = Inr p"
  shows "map title (segments p) =
           map (\<lambda>k. Some (''Segment '' @ nat_to_string k)) [1..<length (segments p) + 1]"
proof -
  have "map title (segs initial_scan) =
          map (\<lambda>k. Some (''Segment '' @ nat_to_string k)) [1..<length (segs initial_scan) + 1]"
    by (simp add: initial_scan_def)
  from titles_scan [OF this, of fl baseUrl "split_lines content"]
  show ?thesis
    using assms parsePlaylist_accepts [OF parsePlaylist_Inr [OF assms], of fl baseUrl]
    by auto
qed

theorem titles_are_ordinal_labels_witness:
  "parsePlaylist (\<lambda>x. x) titled_text example_base = Inr titled_playlist \<and>
   map title (segments titled_playlist) = [Some ''Segment 1'', Some ''Segment 2'']"
proof -
  have n: "map (\<lambda>k. Some (''Segment '' @ nat_to_string k)) [1..<length (segments titled_playlist) + 1] =
           [Some ''Segment 1'', Some ''Segment 2'']"
    by code_simp
  from titles_are_ordinal_labels [OF titled_parse]
  have "map title (segments titled_playlist) = [Some ''Segment 1'', Some ''Segment 2'']"
    unfolding n .
  with titled_parse show ?thesis by simp
qed

subsection \<open>Duration lines that the pattern does not match\<close>











section \<open>Properties of the downloader\<close>

subsection \<open>A run of fetches that succeed\<close>

lemma onProgress_quiet:
  "\<not> progress_cancels env (segmentIndex p) \<Longrightarrow>
   onProgress env p st = st\<lparr>progress_log := progress_log st @ [p]\<rparr>"
  by (simp add: onProgress_def)

lemma loop_success:
  assumes "length bs = length pre"
    and "\<forall>j<length pre. fetch env (i + j) (uri (pre ! j)) = Body (bs ! j)"
    and "\<forall>k. i < k \<and> k \<le> i + length pre \<longrightarrow> \<not> progress_cancels env k"
    and "\<not> signal_aborted st"
  shows "\<exists>st'. download_loop fl env n i (pre @ todo) st =
                 download_loop fl env n (i + length pre) todo st' \<and>
               \<not> signal_aborted st' \<and>
               buffers st' = buffers st @ bs \<and>
               fetch_log st' = fetch_log st @ map uri pre \<and>
               error_log st' = error_log st \<and>
               map segmentIndex (progress_log st') =
                 map segmentIndex (progress_log st) @ [i + 1..<i + length pre + 1] \<and>
               map percentage (progress_log st') =
                 map percentage (progress_log st) @ map (\<lambda>j. percentage_of fl j n) [i..<i + length pre]"
  using assms
proof (induction pre arbitrary: i st bs)
  case Nil
  then show ?case by (intro exI [of _ st]) simp
next
  case (Cons seg pre)
  from Cons.prems(1) obtain b bs' where bs: "bs = b # bs'" and len: "length bs' = length pre"
    by (cases bs) auto
  from Cons.prems(2) have here: "fetch env i (uri seg) = Body b"
    using bs by force
  have later: "\<forall>j<length pre. fetch env (Suc i + j) (uri (pre ! j)) = Body (bs' ! j)"
  proof (intro allI impI)
    fix j assume "j < length pre"
    then have "Suc j < length (seg # pre)" by simp
    with Cons.prems(2) have "fetch env (i + Suc j) (uri ((seg # pre) ! Suc j)) = Body (bs ! Suc j)"
      by blast
    then show "fetch env (Suc i + j) (uri (pre ! j)) = Body (bs' ! j)"
      by (simp add: bs)
  qed
  have quiet: "\<not> progress_cancels env (i + 1)"
    using Cons.prems(3) by simp
  have quiet_later: "\<forall>k. Suc i < k \<and> k \<le> Suc i + length pre \<longrightarrow> \<not> progress_cancels env k"
    using Cons.prems(3) by simp
  let ?st2 = "st\<lparr>fetch_log := fetch_log st @ [uri seg],
                  buffers := buffers st @ [b],
                  downloaded_bytes := downloaded_bytes st + length b,
                  total_bytes := total_bytes st + length b\<rparr>"
  let ?p = "\<lparr>segmentIndex = i + 1, totalSegments = n,
             downloadedBytes = downloaded_bytes st + length b,
             totalBytes = total_bytes st + length b,
             percentage = percentage_of fl i n\<rparr>"
  let ?st3 = "?st2\<lparr>progress_log := progress_log st @ [?p]\<rparr>"
  have step: "download_loop fl env n i ((seg # pre) @ todo) st =
                download_loop fl env n (Suc i) (pre @ todo) ?st3"
    using Cons.prems(4) here quiet by (simp add: onProgress_quiet Let_def)
  have alive: "\<not> signal_aborted ?st3"
    using Cons.prems(4) by (simp add: signal_aborted_def)
  from Cons.IH [OF len later quiet_later alive]
  obtain st' where st':
    "download_loop fl env n (Suc i) (pre @ todo) ?st3 =
       download_loop fl env n (Suc i + length pre) todo st'"
    "\<not> signal_aborted st'"
    "buffers st' = buffers ?st3 @ bs'"
    "fetch_log st' = fetch_log ?st3 @ map uri pre"
    "error_log st' = error_log ?st3"
    "map segmentIndex (progress_log st') =
       map segmentIndex (progress_log ?st3) @ [Suc i + 1..<Suc i + length pre + 1]"
    "map percentage (progress_log st') =
       map percentage (progress_log ?st3) @ map (\<lambda>j. percentage_of fl j n) [Suc i..<Suc i + length pre]"
    by blast
  have idx: "[i + 1..<i + length (seg # pre) + 1] = (i + 1) # [Suc i + 1..<Suc i + length pre + 1]"
    by (simp add: upt_conv_Cons del: upt_Suc)
  have pct: "[i..<i + length (seg # pre)] = i # [Suc i..<Suc i + length pre]"
    by (simp add: upt_conv_Cons del: upt_Suc)
  show ?case
  proof (intro exI conjI)
    show "download_loop fl env n i ((seg # pre) @ todo) st =
            download_loop fl env n (i + length (seg # pre)) todo st'"
      using step st'(1) by simp
    show "\<not> signal_aborted st'" by (rule st'(2))
    show "buffers st' = buffers st @ bs" using st'(3) bs by simp
    show "fetch_log st' = fetch_log st @ map uri (seg # pre)" using st'(4) by simp
    show "error_log st' = error_log st" using st'(5) by simp
    show "map segmentIndex (progress_log st') =
            map segmentIndex (progress_log st) @ [i + 1..<i + length (seg # pre) + 1]"
      unfolding idx using st'(6) by simp
    show "map percentage (progress_log st') =
            map percentage (progress_log st) @ map (\<lambda>j. percentage_of fl j n) [i..<i + length (seg # pre)]"
      unfolding pct using st'(7) by simp
  qed
qed

subsection \<open>The assembly of the buffers\<close>

lemma total_length: "foldl (\<lambda>sum segment. sum + length segment) a bufs = a + length (concat bufs)"
  by (induction bufs arbitrary: a) auto

lemma combine_loop_concat:
  assumes "length combined = offset + length (concat bufs)"
  shows "combine_loop bufs offset combined = Inr (take offset combined @ concat bufs)"
  using assms
proof (induction bufs arbitrary: offset combined)
  case Nil
  then show ?case by simp
next
  case (Cons s bufs)
  let ?c = "take offset combined @ s @ drop (offset + length s) combined"
  have fits: "typed_array_set combined s offset = Inr ?c"
    using Cons.prems by (simp add: typed_array_set_def)
  have len: "length ?c = (offset + length s) + length (concat bufs)"
    using Cons.prems by simp
  have pre: "take (offset + length s) ?c = take offset combined @ s"
    using Cons.prems by simp
  have "combine_loop bufs (offset + length s) ?c = Inr ((take offset combined @ s) @ concat bufs)"
    using Cons.IH [OF len] by (simp only: pre)
  then show ?case
    by (simp add: fits)
qed

lemma combine_concat: "combine bufs = Inr (concat bufs)"
  using combine_loop_concat [of "replicate (length (concat bufs)) 0" 0 bufs]
  by (simp add: combine_def total_length)

subsection \<open>Percentages\<close>

lemma percentage_mono:
  assumes "mono fl" and "i \<le> j"
  shows "percentage_of fl i n \<le> percentage_of fl j n"
proof -
  have "rat_of_nat (i + 1) / rat_of_nat n \<le> rat_of_nat (j + 1) / rat_of_nat n"
    using assms(2) by (intro divide_right_mono) simp_all
  then have "fl (rat_of_nat (i + 1) / rat_of_nat n) \<le> fl (rat_of_nat (j + 1) / rat_of_nat n)"
    by (rule monoD [OF assms(1)])
  then have "fl (rat_of_nat (i + 1) / rat_of_nat n) * 100 \<le> fl (rat_of_nat (j + 1) / rat_of_nat n) * 100"
    by simp
  then have "fl (fl (rat_of_nat (i + 1) / rat_of_nat n) * 100)
               \<le> fl (fl (rat_of_nat (j + 1) / rat_of_nat n) * 100)"
    by (rule monoD [OF assms(1)])
  then show ?thesis
    unfolding percentage_of_def Math_round_def by (intro floor_mono) simp
qed

lemma percentage_nonneg:
  assumes "mono fl" and "fl 0 = 0"
  shows "0 \<le> percentage_of fl i n"
proof -
  have pos: "0 \<le> fl x" if "0 \<le> x" for x
    using monoD [OF assms(1) that] assms(2) by simp
  have "0 \<le> rat_of_nat (i + 1) / rat_of_nat n"
    by simp
  then have "0 \<le> fl (rat_of_nat (i + 1) / rat_of_nat n) * 100"
    using pos by simp
  then have "0 \<le> fl (fl (rat_of_nat (i + 1) / rat_of_nat n) * 100)"
    by (rule pos)
  then show ?thesis
    unfolding percentage_of_def Math_round_def by simp
qed

lemma round_100: "Math_round 100 = 100"
  unfolding Math_round_def by (rule floor_unique) simp_all

lemma percentage_last:
  assumes "fl 1 = 1" and "fl 100 = 100" and "0 < n"
  shows "percentage_of fl (n - 1) n = 100"
proof -
  have s: "n - 1 + 1 = n"
    using assms(3) by linarith
  have "rat_of_nat n \<noteq> 0"
    using assms(3) by simp
  then have "rat_of_nat n / rat_of_nat n = 1"
    by (rule divide_self)
  then have q: "rat_of_nat (n - 1 + 1) / rat_of_nat n = 1"
    by (simp only: s)
  have "fl (fl (rat_of_nat (n - 1 + 1) / rat_of_nat n) * 100) = 100"
    by (simp only: q assms mult_1)
  then show ?thesis
    by (simp only: percentage_of_def round_100)
qed

subsection \<open>Complete runs\<close>

lemma run_success:
  assumes "length bs = length (segments playlist)"
    and "\<forall>j<length (segments playlist). fetch env j (uri (segments playlist ! j)) = Body (bs ! j)"
    and "\<forall>k. \<not> progress_cancels env k"
  shows "fst (downloadM3U8 fl env playlist) = Inr \<lparr>blob_bytes = concat bs, blob_type = ''video/mp4''\<rparr>"
    and "map segmentIndex (progress_log (snd (downloadM3U8 fl env playlist))) =
           [0..<length (segments playlist) + 1]"
    and "map percentage (progress_log (snd (downloadM3U8 fl env playlist))) =
           0 # map (\<lambda>j. percentage_of fl j (length (segments playlist))) [0..<length (segments playlist)]"
    and "fetch_log (snd (downloadM3U8 fl env playlist)) = map uri (segments playlist)"
    and "error_log (snd (downloadM3U8 fl env playlist)) = []"
proof -
  let ?n = "length (segments playlist)"
  let ?p0 = "\<lparr>segmentIndex = 0, totalSegments = ?n, downloadedBytes = 0, totalBytes = 0,
              percentage = 0\<rparr>"
  let ?st1 = "initial_run\<lparr>progress_log := [?p0]\<rparr>"
  have first: "onProgress env ?p0 initial_run = ?st1"
    using assms(3) by (simp add: onProgress_def initial_run_def)
  have alive: "\<not> signal_aborted ?st1"
    by (simp add: signal_aborted_def initial_run_def)
  have bodies: "\<forall>j<?n. fetch env (0 + j) (uri (segments playlist ! j)) = Body (bs ! j)"
    using assms(2) by simp
  have quiet: "\<forall>k. 0 < k \<and> k \<le> 0 + ?n \<longrightarrow> \<not> progress_cancels env k"
    using assms(3) by simp
  from loop_success [OF assms(1) bodies quiet alive, of fl ?n "[]"]
  obtain st' where raw:
    "download_loop fl env ?n 0 (segments playlist @ []) ?st1 =
       download_loop fl env ?n (0 + ?n) [] st'"
    and st':
    "\<not> signal_aborted st'"
    "buffers st' = buffers ?st1 @ bs"
    "fetch_log st' = fetch_log ?st1 @ map uri (segments playlist)"
    "error_log st' = error_log ?st1"
    "map segmentIndex (progress_log st') = map segmentIndex (progress_log ?st1) @ [0 + 1..<0 + ?n + 1]"
    "map percentage (progress_log st') =
       map percentage (progress_log ?st1) @ map (\<lambda>j. percentage_of fl j ?n) [0..<0 + ?n]"
    by blast
  have loop: "download_loop fl env ?n 0 (segments playlist) ?st1 = (Inr (), st')"
    using raw by simp
  have run: "downloadM3U8 fl env playlist =
               (Inr \<lparr>blob_bytes = concat bs, blob_type = ''video/mp4''\<rparr>, st')"
    unfolding downloadM3U8_def first Let_def loop
    by (simp add: st'(2) combine_concat initial_run_def)
  show "fst (downloadM3U8 fl env playlist) = Inr \<lparr>blob_bytes = concat bs, blob_type = ''video/mp4''\<rparr>"
    by (simp add: run)
  have "[0..<?n + 1] = 0 # [0 + 1..<0 + ?n + 1]"
    by (simp add: upt_conv_Cons del: upt_Suc)
  then show "map segmentIndex (progress_log (snd (downloadM3U8 fl env playlist))) = [0..<?n + 1]"
    by (simp add: run st'(5) initial_run_def del: upt_Suc)
  show "map percentage (progress_log (snd (downloadM3U8 fl env playlist))) =
          0 # map (\<lambda>j. percentage_of fl j ?n) [0..<?n]"
    by (simp add: run st'(6) initial_run_def del: upt_Suc)
  show "fetch_log (snd (downloadM3U8 fl env playlist)) = map uri (segments playlist)"
    by (simp add: run st'(3) initial_run_def)
  show "error_log (snd (downloadM3U8 fl env playlist)) = []"
    by (simp add: run st'(4) initial_run_def)
qed

text \<open>
  Claim C2. For a playlist of N segments, N at least 1, take a run in which every fetch
  succeeds and the callback never cancels. The progress callback is called N + 1 times; the
  values of \<open>segmentIndex\<close> are 0, 1, ..., N in this order; the percentages never decrease;
  and the last percentage is 100. Of the rounding to a double the proof uses that it is
  monotone and exact at 0, 1 and 100, as rounding to nearest is.
\<close>

theorem progress_of_successful_run:
  assumes "segments playlist \<noteq> []"
    and "length bs = length (segments playlist)"
    and "\<forall>j<length (segments playlist). fetch env j (uri (segments playlist ! j)) = Body (bs ! j)"
    and "\<forall>k. \<not> progress_cancels env k"
    and "mono fl" and "fl 0 = 0" and "fl 1 = 1" and "fl 100 = 100"
  shows "length (progress_log (snd (downloadM3U8 fl env playlist))) = length (segments playlist) + 1 \<and>
         map segmentIndex (progress_log (snd (downloadM3U8 fl env playlist))) =
           [0..<length (segments playlist) + 1] \<and>
         sorted (map percentage (progress_log (snd (downloadM3U8 fl env playlist)))) \<and>
         percentage (last (progress_log (snd (downloadM3U8 fl env playlist)))) = 100"
proof -
  let ?n = "length (segments playlist)"
  let ?log = "progress_log (snd (downloadM3U8 fl env playlist))"
  have n: "0 < ?n" using assms(1) by simp
  have idx: "map segmentIndex ?log = [0..<?n + 1]"
    by (rule run_success(2) [OF assms(2-4)])
  have pct: "map percentage ?log = 0 # map (\<lambda>j. percentage_of fl j ?n) [0..<?n]"
    by (rule run_success(3) [OF assms(2-4)])
  from arg_cong [OF idx, of length] have len: "length ?log = ?n + 1"
    by simp
  have "sorted_wrt (\<lambda>i j. percentage_of fl i ?n \<le> percentage_of fl j ?n) [0..<?n]"
    by (rule sorted_wrt_mono_rel [OF _ sorted_wrt_upt]) (simp add: percentage_mono [OF assms(5)])
  then have "sorted (map (\<lambda>j. percentage_of fl j ?n) [0..<?n])"
    by (simp add: sorted_map)
  then have srt: "sorted (map percentage ?log)"
    unfolding pct using percentage_nonneg [OF assms(5,6)] by simp
  have ne: "?log \<noteq> []" using len by auto
  have "percentage (last ?log) = last (map percentage ?log)"
    using ne by (simp add: last_map)
  also have "\<dots> = percentage_of fl (?n - 1) ?n"
    unfolding pct using n by (simp add: last_map last_upt)
  also have "\<dots> = 100"
    by (rule percentage_last [OF assms(7,8) n])
  finally have "percentage (last ?log) = 100" .
  with len idx srt show ?thesis by blast
qed

lemma healthy_bodies:
  "\<forall>j<length (segments example_playlist).
      fetch healthy_network j (uri (segments example_playlist ! j)) = Body (segment_bodies ! j)"
  by (simp add: example_playlist_def healthy_network_def segment_bodies_def less_Suc_eq
      all_conj_distrib)

lemma healthy_quiet: "\<forall>k. \<not> progress_cancels healthy_network k"
  by (simp add: healthy_network_def)

lemma bodies_length: "length segment_bodies = length (segments example_playlist)"
  by (simp add: example_playlist_def segment_bodies_def)

theorem progress_of_successful_run_witness:
  "segments example_playlist \<noteq> [] \<and>
   length (progress_log (snd (downloadM3U8 (\<lambda>x. x) healthy_network example_playlist))) = 3 \<and>
   map segmentIndex (progress_log (snd (downloadM3U8 (\<lambda>x. x) healthy_network example_playlist))) =
     [0, 1, 2] \<and>
   sorted (map percentage
     (progress_log (snd (downloadM3U8 (\<lambda>x. x) healthy_network example_playlist)))) \<and>
   percentage (last (progress_log (snd (downloadM3U8 (\<lambda>x. x) healthy_network example_playlist)))) =
     100 \<and>
   map percentage (progress_log (snd (downloadM3U8 (\<lambda>x. x) healthy_network example_playlist))) =
     [0, 50, 100]"
proof -
  have h1: "segments example_playlist \<noteq> []"
    by (simp add: example_playlist_def)
  have m: "mono (\<lambda>x::rat. x)"
    by (simp add: mono_def)
  have n: "length (segments example_playlist) + 1 = 3" "[0..<3] = [0, 1, 2 :: nat]"
    by (simp_all add: example_playlist_def upt_rec)
  have p: "map percentage
             (progress_log (snd (downloadM3U8 (\<lambda>x. x) healthy_network example_playlist))) =
           [0, 50, 100]"
    by code_simp
  from progress_of_successful_run [OF h1 bodies_length healthy_bodies healthy_quiet m refl refl refl]
  have "length (progress_log (snd (downloadM3U8 (\<lambda>x. x) healthy_network example_playlist))) = 3 \<and>
        map segmentIndex
          (progress_log (snd (downloadM3U8 (\<lambda>x. x) healthy_network example_playlist))) = [0, 1, 2] \<and>
        sorted (map percentage
          (progress_log (snd (downloadM3U8 (\<lambda>x. x) healthy_network example_playlist)))) \<and>
        percentage (last
          (progress_log (snd (downloadM3U8 (\<lambda>x. x) healthy_network example_playlist)))) = 100"
    unfolding n .
  with h1 p show ?thesis by blast
qed

text \<open>
  Claim C3. When every fetch succeeds (and nothing cancels), the run returns a blob whose
  bytes are the concatenation of the fetched buffers in the order of the playlist, of type
  \<open>video/mp4\<close>. The code allocates an array of the total length and copies each buffer
  to its offset; no copy is out of range.
\<close>

theorem result_is_concatenation:
  assumes "length bs = length (segments playlist)"
    and "\<forall>j<length (segments playlist). fetch env j (uri (segments playlist ! j)) = Body (bs ! j)"
    and "\<forall>k. \<not> progress_cancels env k"
  shows "fst (downloadM3U8 fl env playlist) = Inr \<lparr>blob_bytes = concat bs, blob_type = ''video/mp4''\<rparr>"
  by (rule run_success(1) [OF assms])

theorem result_is_concatenation_witness:
  "fst (downloadM3U8 (\<lambda>x. x) healthy_network example_playlist) =
     Inr \<lparr>blob_bytes = [1, 2, 3], blob_type = ''video/mp4''\<rparr>"
  using result_is_concatenation [OF bodies_length healthy_bodies healthy_quiet, of "\<lambda>x. x"]
  by (simp add: segment_bodies_def)

subsection \<open>Failure and cancellation\<close>

text \<open>
  Claim C4, as amended. Let the fetches of the first i segments succeed, nothing cancel,
  and the fetch of segment i (counted from 0; k = i + 1 counted from 1) fail other than by
  an abort: either its response is not ok, and the cause is the error "Failed to download
  segment k: statusText" that the code throws, or \<open>fetch\<close> is rejected with a cause that
  is not an AbortError. Then the run aborts and returns no blob, so no bytes of any segment
  reach the caller as a result (those fetched so far stay in the run's local buffers), and
  it makes no fetch beyond segment k. Index k is carried by the one message that the run
  passes to \<open>onError\<close>, "Error downloading segment k: cause"; the error that the run ends
  with is the cause itself.
\<close>

theorem failed_fetch_aborts_run:
  assumes "i < length (segments playlist)"
    and "length bs = i"
    and "\<forall>j<i. fetch env j (uri (segments playlist ! j)) = Body (bs ! j)"
    and "\<forall>k\<le>i. \<not> progress_cancels env k"
    and "fetch env i (uri (segments playlist ! i)) = NotOk statusText \<and>
           cause = \<lparr>name = ''Error'',
                    message = ''Failed to download segment '' @ nat_to_string (i + 1) @ '': ''
                                @ statusText\<rparr>
         \<or> fetch env i (uri (segments playlist ! i)) = Rejected cause \<and> name cause \<noteq> ''AbortError''"
  shows "fst (downloadM3U8 fl env playlist) = Inl cause \<and>
         error_log (snd (downloadM3U8 fl env playlist)) =
           [''Error downloading segment '' @ nat_to_string (i + 1) @ '': '' @ error_toString cause] \<and>
         fetch_log (snd (downloadM3U8 fl env playlist)) = map uri (take (i + 1) (segments playlist)) \<and>
         buffers (snd (downloadM3U8 fl env playlist)) = bs"
proof -
  let ?n = "length (segments playlist)"
  let ?segs = "segments playlist"
  let ?pre = "take i ?segs"
  let ?p0 = "\<lparr>segmentIndex = 0, totalSegments = ?n, downloadedBytes = 0, totalBytes = 0,
              percentage = 0\<rparr>"
  let ?st1 = "initial_run\<lparr>progress_log := [?p0]\<rparr>"
  have split: "?pre @ (?segs ! i) # drop (Suc i) ?segs = ?segs"
    using assms(1) by (simp add: id_take_nth_drop [symmetric])
  have lenpre: "length ?pre = i"
    using assms(1) by simp
  have first: "onProgress env ?p0 initial_run = ?st1"
    using assms(4) by (simp add: onProgress_def initial_run_def)
  have alive: "\<not> signal_aborted ?st1"
    by (simp add: signal_aborted_def initial_run_def)
  have len: "length bs = length ?pre"
    using assms(2) lenpre by simp
  have bodies: "\<forall>j<length ?pre. fetch env (0 + j) (uri (?pre ! j)) = Body (bs ! j)"
    using assms(3) lenpre by simp
  have quiet: "\<forall>k. 0 < k \<and> k \<le> 0 + length ?pre \<longrightarrow> \<not> progress_cancels env k"
    using assms(4) lenpre by simp
  from loop_success [OF len bodies quiet alive, of fl ?n "(?segs ! i) # drop (Suc i) ?segs"]
  obtain st' where raw:
    "download_loop fl env ?n 0 (?pre @ (?segs ! i) # drop (Suc i) ?segs) ?st1 =
       download_loop fl env ?n (0 + length ?pre) ((?segs ! i) # drop (Suc i) ?segs) st'"
    and st':
    "\<not> signal_aborted st'"
    "buffers st' = buffers ?st1 @ bs"
    "fetch_log st' = fetch_log ?st1 @ map uri ?pre"
    "error_log st' = error_log ?st1"
    by blast
  have reach: "download_loop fl env ?n 0 ?segs ?st1 =
                 download_loop fl env ?n i ((?segs ! i) # drop (Suc i) ?segs) st'"
    using raw unfolding split lenpre by simp
  let ?st2 = "st'\<lparr>fetch_log := fetch_log st' @ [uri (?segs ! i)]\<rparr>"
  let ?msg = "''Error downloading segment '' @ nat_to_string (i + 1) @ '': '' @ error_toString cause"
  have notabort: "name cause \<noteq> ''AbortError''"
    using assms(5) by auto
  have fail: "download_loop fl env ?n i ((?segs ! i) # drop (Suc i) ?segs) st' =
                (Inl cause, onError ?msg ?st2)"
    using assms(5) st'(1) notabort by (auto simp: inner_catch_def Let_def)
  have taken: "map uri (take (i + 1) ?segs) = map uri ?pre @ [uri (?segs ! i)]"
    using assms(1) by (simp add: take_Suc_conv_app_nth)
  have run: "downloadM3U8 fl env playlist = (Inl cause, onError ?msg ?st2)"
    unfolding downloadM3U8_def first Let_def reach fail
    using notabort by (simp add: outer_catch_def)
  show ?thesis
    unfolding run taken
    by (simp add: onError_def st'(2,3,4) initial_run_def)
qed

theorem failed_fetch_aborts_run_witness:
  "fst (downloadM3U8 (\<lambda>x. x) not_found_network example_playlist) =
     Inl \<lparr>name = ''Error'', message = ''Failed to download segment 2: Not Found''\<rparr> \<and>
   error_log (snd (downloadM3U8 (\<lambda>x. x) not_found_network example_playlist)) =
     [''Error downloading segment 2: Error: Failed to download segment 2: Not Found''] \<and>
   fetch_log (snd (downloadM3U8 (\<lambda>x. x) not_found_network example_playlist)) =
     [''https://host/path/seg1.ts'', ''https://host/path/seg2.ts''] \<and>
   fst (downloadM3U8 (\<lambda>x. x) unreachable_network example_playlist) =
     Inl \<lparr>name = ''TypeError'', message = ''Failed to fetch''\<rparr> \<and>
   error_log (snd (downloadM3U8 (\<lambda>x. x) unreachable_network example_playlist)) =
     [''Error downloading segment 1: TypeError: Failed to fetch''] \<and>
   fetch_log (snd (downloadM3U8 (\<lambda>x. x) unreachable_network example_playlist)) =
     [''https://host/path/seg1.ts'']"
proof -
  let ?cause = "\<lparr>name = ''Error'', message = ''Failed to download segment 2: Not Found''\<rparr>"
  let ?reject = "\<lparr>name = ''TypeError'', message = ''Failed to fetch''\<rparr>"
  have two: "nat_to_string (1 + 1) = ''2''" and one: "nat_to_string (0 + 1) = ''1''"
    and two': "nat_to_string (Suc (Suc 0)) = ''2''"
    by code_simp+
  have a1: "1 < length (segments example_playlist)"
    by (simp add: example_playlist_def)
  have a2: "length [[1, 2 :: byte]] = 1"
    by simp
  have a3: "\<forall>j<1. fetch not_found_network j (uri (segments example_playlist ! j)) =
              Body ([[1, 2]] ! j)"
    by (simp add: not_found_network_def)
  have a4: "\<forall>k\<le>1. \<not> progress_cancels not_found_network k"
    by (simp add: not_found_network_def)
  have a5: "fetch not_found_network 1 (uri (segments example_playlist ! 1)) = NotOk ''Not Found'' \<and>
              ?cause = \<lparr>name = ''Error'',
                         message = ''Failed to download segment '' @ nat_to_string (1 + 1) @ '': ''
                                     @ ''Not Found''\<rparr>
            \<or> fetch not_found_network 1 (uri (segments example_playlist ! 1)) = Rejected ?cause \<and>
              name ?cause \<noteq> ''AbortError''"
    by (simp add: not_found_network_def two')
  have t: "map uri (take (1 + 1) (segments example_playlist)) =
             [''https://host/path/seg1.ts'', ''https://host/path/seg2.ts'']"
    by (simp add: example_playlist_def)
  from failed_fetch_aborts_run [OF a1 a2 a3 a4 a5, of "\<lambda>x. x"]
  have r1: "fst (downloadM3U8 (\<lambda>x. x) not_found_network example_playlist) = Inl ?cause \<and>
            error_log (snd (downloadM3U8 (\<lambda>x. x) not_found_network example_playlist)) =
              [''Error downloading segment 2: Error: Failed to download segment 2: Not Found''] \<and>
            fetch_log (snd (downloadM3U8 (\<lambda>x. x) not_found_network example_playlist)) =
              [''https://host/path/seg1.ts'', ''https://host/path/seg2.ts'']"
    unfolding t two by (simp add: error_toString_def)
  have b1: "0 < length (segments example_playlist)"
    by (simp add: example_playlist_def)
  have b2: "length ([] :: byte list list) = 0"
    by simp
  have b3: "\<forall>j<0. fetch unreachable_network j (uri (segments example_playlist ! j)) = Body ([] ! j)"
    by simp
  have b4: "\<forall>k\<le>0. \<not> progress_cancels unreachable_network k"
    by (simp add: unreachable_network_def)
  have b5: "fetch unreachable_network 0 (uri (segments example_playlist ! 0)) = NotOk [] \<and>
              ?reject = \<lparr>name = ''Error'',
                          message = ''Failed to download segment '' @ nat_to_string (0 + 1) @ '': ''
                                      @ []\<rparr>
            \<or> fetch unreachable_network 0 (uri (segments example_playlist ! 0)) = Rejected ?reject \<and>
              name ?reject \<noteq> ''AbortError''"
    by (simp add: unreachable_network_def)
  have u: "map uri (take (0 + 1) (segments example_playlist)) = [''https://host/path/seg1.ts'']"
    by (simp add: example_playlist_def)
  from failed_fetch_aborts_run [OF b1 b2 b3 b4 b5, of "\<lambda>x. x"]
  have r2: "fst (downloadM3U8 (\<lambda>x. x) unreachable_network example_playlist) = Inl ?reject \<and>
            error_log (snd (downloadM3U8 (\<lambda>x. x) unreachable_network example_playlist)) =
              [''Error downloading segment 1: TypeError: Failed to fetch''] \<and>
            fetch_log (snd (downloadM3U8 (\<lambda>x. x) unreachable_network example_playlist)) =
              [''https://host/path/seg1.ts'']"
    unfolding u one by (simp add: error_toString_def)
  from r1 r2 show ?thesis by blast
qed

text \<open>
  The claim as stated, that the error of the run carries index k, fails when \<open>fetch\<close> is
  rejected: the run ends with the rejection as it is. A rejection at the first segment and
  the same rejection at the second segment end the run with the same error, which names
  no segment; only the messages to \<open>onError\<close> differ.
\<close>

theorem rejected_fetch_error_has_no_index:
  "fst (downloadM3U8 (\<lambda>x. x) unreachable_network example_playlist) =
     Inl \<lparr>name = ''TypeError'', message = ''Failed to fetch''\<rparr> \<and>
   fetch_log (snd (downloadM3U8 (\<lambda>x. x) unreachable_network example_playlist)) =
     [''https://host/path/seg1.ts''] \<and>
   fst (downloadM3U8 (\<lambda>x. x) late_unreachable_network example_playlist) =
     Inl \<lparr>name = ''TypeError'', message = ''Failed to fetch''\<rparr> \<and>
   fetch_log (snd (downloadM3U8 (\<lambda>x. x) late_unreachable_network example_playlist)) =
     [''https://host/path/seg1.ts'', ''https://host/path/seg2.ts''] \<and>
   error_log (snd (downloadM3U8 (\<lambda>x. x) unreachable_network example_playlist)) =
     [''Error downloading segment 1: TypeError: Failed to fetch''] \<and>
   error_log (snd (downloadM3U8 (\<lambda>x. x) late_unreachable_network example_playlist)) =
     [''Error downloading segment 2: TypeError: Failed to fetch'']"
  by code_simp

text \<open>
  Claim C5, as amended. For a playlist with at least one segment: when the signal is aborted
  before the first fetch starts (the callback cancels on the initial progress event, the
  only point before the first fetch where other code runs), the run fails with the error
  "Download cancelled" and performs no fetch.
\<close>

theorem cancel_before_first_fetch:
  assumes "segments playlist \<noteq> []" and "progress_cancels env 0"
  shows "fst (downloadM3U8 fl env playlist) = Inl cancelled_error \<and>
         fetch_log (snd (downloadM3U8 fl env playlist)) = []"
proof -
  obtain seg rest where segs: "segments playlist = seg # rest"
    using assms(1) by (cases "segments playlist") auto
  show ?thesis
    using assms(2)
    by (simp add: downloadM3U8_def onProgress_def cancelDownload_def initial_run_def segs
        signal_aborted_def outer_catch_def cancelled_error_def)
qed

theorem cancel_before_first_fetch_witness:
  "segments example_playlist \<noteq> [] \<and> progress_cancels cancelling_callback 0 \<and>
   fst (downloadM3U8 (\<lambda>x. x) cancelling_callback example_playlist) = Inl cancelled_error \<and>
   fetch_log (snd (downloadM3U8 (\<lambda>x. x) cancelling_callback example_playlist)) = []"
proof -
  have h1: "segments example_playlist \<noteq> []"
    by (simp add: example_playlist_def)
  have h2: "progress_cancels cancelling_callback 0"
    by (simp add: cancelling_callback_def)
  from cancel_before_first_fetch [OF h1 h2, of "\<lambda>x. x"] h1 h2
  show ?thesis by simp
qed

text \<open>
  The claim as stated, for every playlist, fails on a playlist without segments: the signal
  is checked at the head of each iteration only, so with no iteration the run is not
  cancelled and returns an empty blob, though the signal is aborted.
\<close>

theorem cancel_on_empty_playlist_returns:
  "progress_cancels cancelling_callback 0 \<and>
   signal_aborted (snd (downloadM3U8 (\<lambda>x. x) cancelling_callback empty_playlist)) \<and>
   fst (downloadM3U8 (\<lambda>x. x) cancelling_callback empty_playlist) =
     Inr \<lparr>blob_bytes = [], blob_type = ''video/mp4''\<rparr> \<and>
   fetch_log (snd (downloadM3U8 (\<lambda>x. x) cancelling_callback empty_playlist)) = []"
  by code_simp

end
